theory Spec2Isabelle
  imports
    Complex_Main
    "HOL-Library.AList"
    "HOL-Library.Sublist"
    "HOL-Library.Multiset"
    "HOL-Library.Product_Lexorder"
begin

section \<open>Python values\<close>

text \<open>
  The two services keep their state in dictionaries of JSON-like values
  (\<open>Dict[str, Any]\<close>). A dictionary is an association list in insertion order,
  as Python iterates it; well-formed dictionaries have distinct keys. A float that
  occurs inside a payload is carried by the text Python prints for it.
\<close>

datatype json =
    JNull
  | JBool bool
  | JInt int
  | JFloat string
  | JStr string
  | JList "json list"
  | JDict "(string \<times> json) list"

type_synonym py_dict = "(string \<times> json) list"

datatype error = TypeError | ValueError | KeyError | ValidationError

text \<open>
  A \<open>datetime\<close> is a number of microseconds on the time line; the clock value
  \<open>datetime.now()\<close> is an argument of every operation that reads it, read once per
  call. \<open>timedelta.total_seconds()\<close> is the exact quotient. A stored timestamp is
  such a point in time: how the dictionaries render it, as a \<open>datetime\<close> object or as
  an ISO string, and the parsing of that string are not modelled.
\<close>

type_synonym datetime = int

definition seconds :: "int \<Rightarrow> int" where
  "seconds n = n * 1000000"

definition days :: "int \<Rightarrow> int" where
  "days n = n * 86400 * 1000000"

definition total_seconds :: "int \<Rightarrow> rat" where
  "total_seconds d = of_int d / 1000000"

text \<open>\<open>d.get(k, default)\<close>\<close>

definition py_get :: "('k \<times> 'v) list \<Rightarrow> 'k \<Rightarrow> 'v \<Rightarrow> 'v" where
  "py_get d k dflt = (case map_of d k of None \<Rightarrow> dflt | Some v \<Rightarrow> v)"

text \<open>\<open>len(x)\<close>: defined on strings, lists and dictionaries, a TypeError elsewhere.\<close>

fun py_len :: "json \<Rightarrow> error + nat" where
  "py_len (JStr s) = Inr (length s)"
| "py_len (JList xs) = Inr (length xs)"
| "py_len (JDict kvs) = Inr (length kvs)"
| "py_len _ = Inl TypeError"

text \<open>
  \<open>sorted(xs, key=f, reverse=True)\<close>: a stable sort into descending order, in which
  elements with equal keys keep the order they had in \<open>xs\<close>.
\<close>

definition sorted_desc :: "('a \<Rightarrow> 'k::linorder) \<Rightarrow> 'a list \<Rightarrow> 'a list" where
  "sorted_desc f xs = rev (sort_key f (rev xs))"

text \<open>The slice \<open>xs[:n]\<close> for an integer \<open>n\<close> of either sign.\<close>

definition py_take :: "int \<Rightarrow> 'a list \<Rightarrow> 'a list" where
  "py_take n xs =
     (if 0 \<le> n then take (nat n) xs else take (nat (int (length xs) + n)) xs)"

text \<open>The slice \<open>xs[-n:]\<close> for \<open>n > 0\<close>.\<close>

definition py_last_n :: "nat \<Rightarrow> 'a list \<Rightarrow> 'a list" where
  "py_last_n n xs = drop (length xs - n) xs"

text \<open>\<open>min(xs, key=f)\<close> and \<open>max(xs, key=f)\<close>: the first extremal element; a
  ValueError on the empty list.\<close>

fun py_min_key :: "('a \<Rightarrow> 'k::linorder) \<Rightarrow> 'a list \<Rightarrow> error + 'a" where
  "py_min_key f [] = Inl ValueError"
| "py_min_key f (x # xs) = Inr (fold (\<lambda>y best. if f y < f best then y else best) xs x)"

fun py_max_key :: "('a \<Rightarrow> 'k::linorder) \<Rightarrow> 'a list \<Rightarrow> error + 'a" where
  "py_max_key f [] = Inl ValueError"
| "py_max_key f (x # xs) = Inr (fold (\<lambda>y best. if f best < f y then y else best) xs x)"

text \<open>\<open>d.update(patch)\<close>: every key of the patch is assigned in turn.\<close>

definition py_update :: "('k \<times> 'v) list \<Rightarrow> ('k \<times> 'v) list \<Rightarrow> ('k \<times> 'v) list" where
  "py_update d patch = fold (\<lambda>kv acc. AList.update (fst kv) (snd kv) acc) patch d"

section \<open>Memory store: data model\<close>

text \<open>
  \<open>MemoryRequest\<close>, \<open>MemoryEntry\<close> (schemas.py) and the per-user aggregate that
  \<open>store_interaction\<close> creates. Relevance scores are Python floats in the source;
  the model computes them in exact rational arithmetic.
\<close>

record memory_request =
  req_user_id :: string
  req_session_id :: "string option"
  req_interaction :: py_dict
  req_context :: "py_dict option"

record memory_entry =
  entry_id :: string
  entry_user_id :: string
  entry_session_id :: "string option"
  timestamp :: datetime
  interaction_type :: string
  data :: py_dict
  entry_context :: py_dict
  relevance_score :: rat

record context_summary =
  total_interactions :: nat
  recent_interactions :: nat
  most_common_interaction :: "string option"
  interaction_types :: "(string \<times> nat) list"
  recent_intents :: "json list"
  common_entities :: "(json \<times> nat) list"
  last_updated :: datetime
  user_activity_level :: string

record user_memory =
  um_user_id :: string
  um_created_at :: datetime
  last_interaction :: datetime
  entries :: "memory_entry list"
  preferences :: py_dict
  summary :: "context_summary option"

text \<open>
  The service object: \<open>memory_storage\<close> and the two limits set by \<open>__init__\<close>.
  The snapshot file is not part of the model: \<open>_save_memory_to_file\<close> changes
  nothing in memory and its failures are logged only.
\<close>

record memory_service =
  memory_storage :: "(string \<times> user_memory) list"
  max_memory_entries :: nat
  memory_retention_days :: int

definition MemoryService_init :: memory_service where
  "MemoryService_init =
     \<lparr>memory_storage = [], max_memory_entries = 1000, memory_retention_days = 30\<rparr>"

record memory_response =
  memory_entries :: "memory_entry list"
  response_summary :: "context_summary option"

text \<open>
  A failed call answers \<open>MemoryResponse(success=False, message=str(e))\<close>, which is
  \<open>Inl e\<close> here; its \<open>memory_entries\<close> is \<open>None\<close>.
\<close>

definition success :: "error + 'a \<Rightarrow> bool" where
  "success r = (case r of Inl e \<Rightarrow> False | Inr x \<Rightarrow> True)"

definition response_entries :: "error + memory_response \<Rightarrow> memory_entry list" where
  "response_entries r = (case r of Inl e \<Rightarrow> [] | Inr resp \<Rightarrow> memory_entries resp)"

text \<open>The entry list of a user, empty for a user without an aggregate.\<close>

definition user_entries :: "memory_service \<Rightarrow> string \<Rightarrow> memory_entry list" where
  "user_entries svc uid =
     (case map_of (memory_storage svc) uid of None \<Rightarrow> [] | Some um \<Rightarrow> entries um)"

section \<open>Memory store: relevance score\<close>

text \<open>
  \<open>_calculate_relevance_score(interaction)\<close>. The only argument is the interaction
  payload; \<open>len\<close> of a value that has no length raises.
\<close>

definition calculate_relevance_score :: "py_dict \<Rightarrow> error + rat" where
  "calculate_relevance_score interaction =
     (let base_score = 1 / 2;
          itype = py_get interaction ''type'' (JStr '''');
          base_score =
            (if itype \<in> set [JStr ''purchase'', JStr ''support'', JStr ''form_fill'']
             then base_score + 3 / 10
             else if itype \<in> set [JStr ''question'', JStr ''search'']
             then base_score + 2 / 10
             else base_score)
      in case (case map_of interaction ''entities'' of
                 None \<Rightarrow> Inr base_score
               | Some es \<Rightarrow>
                   (case py_len es of
                      Inl e \<Rightarrow> Inl e
                    | Inr entity_count \<Rightarrow>
                        Inr (base_score + min (of_nat entity_count * (1 / 10)) (3 / 10)))) of
           Inl e \<Rightarrow> Inl e
         | Inr base_score \<Rightarrow>
             (case map_of interaction ''context'' of
                None \<Rightarrow> Inr (min base_score 1)
              | Some c \<Rightarrow>
                  (case py_len c of
                     Inl e \<Rightarrow> Inl e
                   | Inr n \<Rightarrow>
                       Inr (min (if 2 < n then base_score + 1 / 10 else base_score) 1))))"

section \<open>Memory store: writing and summarising\<close>

text \<open>
  \<open>_calculate_activity_level(entries)\<close>: the number of entries of the last seven days.
\<close>

definition calculate_activity_level :: "datetime \<Rightarrow> memory_entry list \<Rightarrow> string" where
  "calculate_activity_level now es =
     (if es = [] then ''inactive''
      else
        let week_ago = now - days 7;
            recent_count = length (filter (\<lambda>e. week_ago < timestamp e) es)
        in if 10 \<le> recent_count then ''very_active''
           else if 5 \<le> recent_count then ''active''
           else if 1 \<le> recent_count then ''moderate''
           else ''low'')"

text \<open>
  \<open>for entity in entities\<close> iterates a list, the characters of a string or the keys
  of a dictionary, and raises on anything else; a list or a dictionary cannot be the
  key of a dictionary. Keys are compared structurally.
\<close>

fun py_iter :: "json \<Rightarrow> error + json list" where
  "py_iter (JList xs) = Inr xs"
| "py_iter (JStr s) = Inr (map (\<lambda>c. JStr [c]) s)"
| "py_iter (JDict kvs) = Inr (map (\<lambda>kv. JStr (fst kv)) kvs)"
| "py_iter _ = Inl TypeError"

fun hashable :: "json \<Rightarrow> bool" where
  "hashable (JList _) = False"
| "hashable (JDict _) = False"
| "hashable _ = True"

text \<open>\<open>counts[k] = counts.get(k, 0) + 1\<close>\<close>

definition count_up :: "'k \<Rightarrow> ('k \<times> nat) list \<Rightarrow> ('k \<times> nat) list" where
  "count_up k counts = AList.update k (py_get counts k 0 + 1) counts"

fun tally_entities :: "json list \<Rightarrow> (json \<times> nat) list \<Rightarrow> error + (json \<times> nat) list" where
  "tally_entities [] common = Inr common"
| "tally_entities (entity # rest) common =
     (if hashable entity then tally_entities rest (count_up entity common)
      else Inl TypeError)"

text \<open>
  The loop of \<open>_update_context_summary\<close> over \<open>recent_entries\<close>, in the order of that
  list; its state is \<open>(interaction_types, recent_intents, common_entities)\<close>.
\<close>

fun analyse_entries ::
  "memory_entry list \<Rightarrow> (string \<times> nat) list \<times> json list \<times> (json \<times> nat) list \<Rightarrow>
   error + (string \<times> nat) list \<times> json list \<times> (json \<times> nat) list" where
  "analyse_entries [] acc = Inr acc"
| "analyse_entries (entry # rest) (types, intents, common) =
     (let types' = count_up (interaction_type entry) types;
          intents' = (case map_of (data entry) ''intent'' of
                        None \<Rightarrow> intents
                      | Some v \<Rightarrow> intents @ [v])
      in case py_iter (py_get (entry_context entry) ''entity_types'' (JList [])) of
           Inl e \<Rightarrow> Inl e
         | Inr entities \<Rightarrow>
             (case tally_entities entities common of
                Inl e \<Rightarrow> Inl e
              | Inr common' \<Rightarrow> analyse_entries rest (types', intents', common')))"

text \<open>
  \<open>_update_context_summary(user_id)\<close>. Every exception is caught and logged inside
  the function, which then leaves the stored summary as it was.
\<close>

definition update_context_summary :: "datetime \<Rightarrow> string \<Rightarrow> memory_service \<Rightarrow> memory_service" where
  "update_context_summary now user_id svc =
     (case map_of (memory_storage svc) user_id of
        None \<Rightarrow> svc
      | Some um \<Rightarrow>
          if entries um = [] then svc
          else
            let recent_entries = take 20 (sorted_desc timestamp (entries um))
            in (case analyse_entries recent_entries ([], [], []) of
                 Inl e \<Rightarrow> svc
               | Inr (types, intents, common) \<Rightarrow>
                   let s = \<lparr>total_interactions = length (entries um),
                            recent_interactions = length recent_entries,
                            most_common_interaction =
                              (case py_max_key snd types of
                                 Inl e \<Rightarrow> None
                               | Inr kv \<Rightarrow> Some (fst kv)),
                            interaction_types = types,
                            recent_intents = py_last_n 5 intents,
                            common_entities = take 5 (sorted_desc snd common),
                            last_updated = now,
                            user_activity_level = calculate_activity_level now (entries um)\<rparr>
                   in svc\<lparr>memory_storage :=
                            AList.update user_id (um\<lparr>summary := Some s\<rparr>) (memory_storage svc)\<rparr>))"


text \<open>
  \<open>store_interaction(request)\<close>, with the clock value and the generated identifier as
  arguments. The entry is built first: the relevance score may raise, and then the
  \<open>interaction_type: str\<close> field of \<open>MemoryEntry\<close> rejects a \<open>type\<close> that is not a
  string. Any exception ends the call with \<open>success=False\<close>, here \<open>Inl\<close>.
\<close>

fun validate_str :: "json \<Rightarrow> error + string" where
  "validate_str (JStr s) = Inr s"
| "validate_str _ = Inl ValidationError"

definition new_user_memory :: "datetime \<Rightarrow> string \<Rightarrow> user_memory" where
  "new_user_memory now uid =
     \<lparr>um_user_id = uid, um_created_at = now, last_interaction = now,
      entries = [], preferences = [], summary = None\<rparr>"

definition new_entry ::
  "datetime \<Rightarrow> string \<Rightarrow> memory_request \<Rightarrow> string \<Rightarrow> rat \<Rightarrow> memory_entry" where
  "new_entry now uuid request itype score =
     \<lparr>entry_id = uuid,
      entry_user_id = req_user_id request,
      entry_session_id = req_session_id request,
      timestamp = now,
      interaction_type = itype,
      data = req_interaction request,
      entry_context = (case req_context request of None \<Rightarrow> [] | Some c \<Rightarrow> c),
      relevance_score = score\<rparr>"

definition store_interaction ::
  "datetime \<Rightarrow> string \<Rightarrow> memory_request \<Rightarrow> memory_service \<Rightarrow>
   memory_service \<times> (error + memory_response)" where
  "store_interaction now uuid request svc =
     (case calculate_relevance_score (req_interaction request) of
        Inl e \<Rightarrow> (svc, Inl e)
      | Inr score \<Rightarrow>
          (case validate_str (py_get (req_interaction request) ''type'' (JStr ''unknown'')) of
             Inl e \<Rightarrow> (svc, Inl e)
           | Inr itype \<Rightarrow>
               let entry = new_entry now uuid request itype score;
                   um = py_get (memory_storage svc) (req_user_id request)
                          (new_user_memory now (req_user_id request));
                   um = um\<lparr>entries := entries um @ [entry], last_interaction := now\<rparr>;
                   um = (if max_memory_entries svc < length (entries um)
                         then um\<lparr>entries :=
                                  take (max_memory_entries svc)
                                    (sorted_desc (\<lambda>x. (relevance_score x, timestamp x))
                                       (entries um))\<rparr>
                         else um);
                   svc = svc\<lparr>memory_storage :=
                               AList.update (req_user_id request) um (memory_storage svc)\<rparr>;
                   svc = update_context_summary now (req_user_id request) svc
               in (svc,
                   Inr \<lparr>memory_entries = [entry],
                        response_summary =
                          summary (py_get (memory_storage svc) (req_user_id request) um)\<rparr>)))"

text \<open>A sequence of calls, each with its clock value and identifier.\<close>

fun store_all ::
  "(datetime \<times> string \<times> memory_request) list \<Rightarrow> memory_service \<Rightarrow>
   memory_service \<times> (error + memory_response) list" where
  "store_all [] svc = (svc, [])"
| "store_all ((now, uuid, request) # calls) svc =
     (let (svc', r) = store_interaction now uuid request svc;
          (svc'', rs) = store_all calls svc'
      in (svc'', r # rs))"

section \<open>Memory store: retention sweep\<close>

text \<open>
  \<open>_cleanup_old_entries()\<close>: the loop runs over a copy of the keys. A KeyError would
  end the sweep in its \<open>except\<close> clause.
\<close>

fun cleanup_users :: "datetime \<Rightarrow> string list \<Rightarrow> (string \<times> user_memory) list \<Rightarrow> (string \<times> user_memory) list" where
  "cleanup_users cutoff_date [] storage = storage"
| "cleanup_users cutoff_date (user_id # rest) storage =
     (case map_of storage user_id of
        None \<Rightarrow> storage
      | Some um \<Rightarrow>
          let um' = um\<lparr>entries := filter (\<lambda>entry. cutoff_date < timestamp entry) (entries um)\<rparr>
          in if entries um' = []
             then cleanup_users cutoff_date rest (AList.delete user_id storage)
             else cleanup_users cutoff_date rest (AList.update user_id um' storage))"

definition cleanup_old_entries :: "datetime \<Rightarrow> memory_service \<Rightarrow> memory_service" where
  "cleanup_old_entries now svc =
     (let cutoff_date = now - days (memory_retention_days svc)
      in svc\<lparr>memory_storage :=
               cleanup_users cutoff_date (map fst (memory_storage svc)) (memory_storage svc)\<rparr>)"

text \<open>
  What one round of the loop leaves of the aggregate it visits: the aggregate with its
  recent entries, or nothing when no entry is recent.
\<close>

definition swept :: "datetime \<Rightarrow> user_memory \<Rightarrow> user_memory option" where
  "swept cutoff um =
     (if filter (\<lambda>entry. cutoff < timestamp entry) (entries um) = [] then None
      else Some (um\<lparr>entries := filter (\<lambda>entry. cutoff < timestamp entry) (entries um)\<rparr>))"

section \<open>Memory store: text search\<close>
















section \<open>Session store\<close>

text \<open>
  A stored session (the dictionary built by \<open>create_session\<close>), the \<open>SessionInfo\<close>
  returned to callers, and the service object with the limits set by \<open>__init__\<close>.
  The operations are those of an initialised service, as the application start-up
  leaves it; the snapshot file is not part of the model.
\<close>

record session =
  session_id :: string
  user_id :: string
  created_at :: datetime
  last_activity :: datetime
  user_data :: py_dict
  session_context :: py_dict
  interaction_count :: int
  status :: string

record session_info =
  info_session_id :: string
  info_user_id :: string
  info_created_at :: datetime
  info_last_activity :: datetime
  info_status :: string
  info_interaction_count :: int

record session_service =
  active_sessions :: "(string \<times> session) list"
  session_timeout :: int
  max_sessions_per_user :: nat
  cleanup_interval :: int

definition SessionService_init :: session_service where
  "SessionService_init =
     \<lparr>active_sessions = [], session_timeout = 3600, max_sessions_per_user = 5,
      cleanup_interval = 300\<rparr>"

text \<open>
  The expiry test of \<open>get_session\<close> and of the sweep:
  \<open>(now - last_activity).total_seconds() > self.session_timeout\<close>.
\<close>

definition expired :: "datetime \<Rightarrow> session_service \<Rightarrow> session \<Rightarrow> bool" where
  "expired now svc sd \<longleftrightarrow> of_int (session_timeout svc) < total_seconds (now - last_activity sd)"

text \<open>\<open>_cleanup_expired_sessions()\<close>\<close>

definition cleanup_expired_sessions :: "datetime \<Rightarrow> session_service \<Rightarrow> session_service" where
  "cleanup_expired_sessions current_time svc =
     (let expired_sessions =
            map fst (filter (\<lambda>kv. expired current_time svc (snd kv)) (active_sessions svc))
      in svc\<lparr>active_sessions := fold AList.delete expired_sessions (active_sessions svc)\<rparr>)"

text \<open>
  \<open>create_session(user_id, user_data)\<close>, with the clock value and the generated
  identifier as arguments. \<open>min\<close> looks the creation time of each identifier up in the
  store; the model keeps the stored record beside the identifier. \<open>min\<close> of an empty
  list raises, which ends the call with \<open>success=False\<close>, here \<open>Inl\<close>.
\<close>

definition create_session ::
  "datetime \<Rightarrow> string \<Rightarrow> string \<Rightarrow> py_dict option \<Rightarrow> session_service \<Rightarrow>
   session_service \<times> (error + session_info)" where
  "create_session current_time new_id uid udata svc =
     (let user_sessions = filter (\<lambda>kv. user_id (snd kv) = uid) (active_sessions svc)
      in case (if max_sessions_per_user svc \<le> length user_sessions
               then (case py_min_key (\<lambda>kv. created_at (snd kv)) user_sessions of
                       Inl e \<Rightarrow> Inl e
                     | Inr oldest_session \<Rightarrow>
                         Inr (AList.delete (fst oldest_session) (active_sessions svc)))
               else Inr (active_sessions svc)) of
           Inl e \<Rightarrow> (svc, Inl e)
         | Inr sessions \<Rightarrow>
             let session_data =
                   \<lparr>session_id = new_id, user_id = uid,
                    created_at = current_time, last_activity = current_time,
                    user_data = (case udata of None \<Rightarrow> [] | Some d \<Rightarrow> d),
                    session_context = [], interaction_count = 0, status = ''active''\<rparr>
             in (svc\<lparr>active_sessions := AList.update new_id session_data sessions\<rparr>,
                 Inr \<lparr>info_session_id = new_id, info_user_id = uid,
                      info_created_at = current_time, info_last_activity = current_time,
                      info_status = ''active'', info_interaction_count = 0\<rparr>))"

text \<open>\<open>get_session(session_id)\<close>\<close>

definition get_session ::
  "datetime \<Rightarrow> string \<Rightarrow> session_service \<Rightarrow> session_service \<times> session_info option" where
  "get_session now sid svc =
     (case map_of (active_sessions svc) sid of
        None \<Rightarrow> (svc, None)
      | Some session_data \<Rightarrow>
          if expired now svc session_data
          then (svc\<lparr>active_sessions := AList.delete sid (active_sessions svc)\<rparr>, None)
          else (svc,
                Some \<lparr>info_session_id = session_id session_data,
                      info_user_id = user_id session_data,
                      info_created_at = created_at session_data,
                      info_last_activity = last_activity session_data,
                      info_status = status session_data,
                      info_interaction_count = interaction_count session_data\<rparr>))"

text \<open>
  \<open>update_session_activity(session_id, context)\<close>; \<open>if context:\<close> skips the merge for
  \<open>None\<close> and for the empty dictionary.
\<close>

definition update_session_activity ::
  "datetime \<Rightarrow> string \<Rightarrow> py_dict option \<Rightarrow> session_service \<Rightarrow> session_service \<times> bool" where
  "update_session_activity now sid ctx svc =
     (case map_of (active_sessions svc) sid of
        None \<Rightarrow> (svc, False)
      | Some session_data \<Rightarrow>
          let session_data = session_data\<lparr>last_activity := now,
                                          interaction_count := interaction_count session_data + 1\<rparr>;
              session_data =
                (case ctx of
                   None \<Rightarrow> session_data
                 | Some c \<Rightarrow>
                     if c \<noteq> []
                     then session_data\<lparr>session_context := py_update (session_context session_data) c\<rparr>
                     else session_data)
          in (svc\<lparr>active_sessions := AList.update sid session_data (active_sessions svc)\<rparr>, True))"

text \<open>\<open>get_session_context(session_id)\<close>\<close>

definition get_session_context :: "string \<Rightarrow> session_service \<Rightarrow> py_dict" where
  "get_session_context sid svc =
     (case map_of (active_sessions svc) sid of
        None \<Rightarrow> []
      | Some session_data \<Rightarrow> session_context session_data)"

section \<open>Facts about the Python operations\<close>

lemma length_sorted_desc [simp]: "length (sorted_desc f xs) = length xs"
  by (simp add: sorted_desc_def)

lemma set_sorted_desc [simp]: "set (sorted_desc f xs) = set xs"
  by (simp add: sorted_desc_def)

lemma mset_sorted_desc [simp]: "mset (sorted_desc f xs) = mset xs"
  by (simp add: sorted_desc_def)



lemma fold_min_key:
  "fold (\<lambda>y best. if f y < f best then y else best) xs x \<in> set (x # xs) \<and>
   (\<forall>y \<in> set (x # xs).
      f (fold (\<lambda>y best. if f y < f best then y else best) xs x) \<le> (f y :: 'k :: linorder))"
proof (induction xs arbitrary: x)
  case Nil
  then show ?case by simp
next
  case (Cons a xs)
  show ?case
  proof (cases "f a < f x")
    case True
    then show ?thesis using Cons [of a] by (auto intro: order.trans less_imp_le)
  next
    case False
    then show ?thesis using Cons [of x] by (auto intro: order.trans)
  qed
qed

lemma py_min_key_Inr:
  assumes "py_min_key f xs = Inr m"
  shows "m \<in> set xs \<and> (\<forall>y \<in> set xs. f m \<le> f y)"
proof (cases xs)
  case Nil
  then show ?thesis using assms by simp
next
  case (Cons x xs')
  then show ?thesis using assms fold_min_key [of f xs' x] by auto
qed

lemma py_min_key_nonempty: "xs \<noteq> [] \<Longrightarrow> \<exists>m. py_min_key f xs = Inr m"
  by (cases xs) auto

lemma map_of_fold_update:
  "distinct (map fst patch) \<Longrightarrow>
   map_of (fold (\<lambda>kv acc. AList.update (fst kv) (snd kv) acc) patch d) k =
   (case map_of patch k of Some v \<Rightarrow> Some v | None \<Rightarrow> map_of d k)"
proof (induction patch arbitrary: d)
  case Nil
  then show ?case by simp
next
  case (Cons kv patch)
  then have notin: "map_of patch (fst kv) = None"
    by (simp add: map_of_eq_None_iff)
  show ?case
    using Cons.IH [of "AList.update (fst kv) (snd kv) d"] Cons.prems notin
    by (cases "k = fst kv") (simp_all add: AList.update_conv' split: option.splits)
qed

lemma map_of_py_update:
  "distinct (map fst patch) \<Longrightarrow> map_of (py_update d patch) = map_of d ++ map_of patch"
  by (rule ext) (simp add: py_update_def map_of_fold_update map_add_def)

section \<open>Facts about the memory store\<close>

lemma user_entries_update:
  "user_entries (svc\<lparr>memory_storage := AList.update uid um (memory_storage svc)\<rparr>) v =
     (if v = uid then entries um else user_entries svc v)"
  by (simp add: user_entries_def AList.update_conv')

lemma update_context_summary_entries [simp]:
  "user_entries (update_context_summary now uid svc) v = user_entries svc v"
proof (cases "map_of (memory_storage svc) uid")
  case None
  then show ?thesis by (simp add: update_context_summary_def)
next
  case (Some um)
  then have "user_entries svc uid = entries um"
    by (simp add: user_entries_def)
  then show ?thesis
    using Some
    by (auto simp: update_context_summary_def Let_def user_entries_update
        split: sum.splits prod.splits)
qed

lemma update_context_summary_limits [simp]:
  "max_memory_entries (update_context_summary now uid svc) = max_memory_entries svc"
  "memory_retention_days (update_context_summary now uid svc) = memory_retention_days svc"
  by (auto simp: update_context_summary_def Let_def split: option.splits sum.splits prod.splits)

lemma update_context_summary_keys [simp]:
  "map fst (memory_storage (update_context_summary now uid svc)) = map fst (memory_storage svc)"
proof (cases "map_of (memory_storage svc) uid")
  case None
  then show ?thesis by (simp add: update_context_summary_def)
next
  case (Some um)
  then have "(uid, um) \<in> set (memory_storage svc)"
    by (rule map_of_SomeD)
  then have "uid \<in> fst ` set (memory_storage svc)"
    by force
  then show ?thesis
    using Some
    by (auto simp: update_context_summary_def Let_def AList.update_keys
        split: sum.splits prod.splits)
qed

lemma entries_py_get:
  "entries (py_get (memory_storage svc) uid (new_user_memory now uid)) = user_entries svc uid"
  by (simp add: py_get_def user_entries_def new_user_memory_def split: option.splits)

lemma success_store_iff:
  "success (snd (store_interaction now uuid request svc)) \<longleftrightarrow>
     (\<exists>score itype. calculate_relevance_score (req_interaction request) = Inr score \<and>
        validate_str (py_get (req_interaction request) ''type'' (JStr ''unknown'')) = Inr itype)"
  by (auto simp: store_interaction_def success_def Let_def split: sum.splits)

lemma store_interaction_failure:
  assumes "\<not> success (snd (store_interaction now uuid request svc))"
  shows "fst (store_interaction now uuid request svc) = svc"
    and "response_entries (snd (store_interaction now uuid request svc)) = []"
  using assms
  by (auto simp: store_interaction_def success_def response_entries_def Let_def split: sum.splits)

lemma store_interaction_success:
  assumes score: "calculate_relevance_score (req_interaction request) = Inr score"
      and itype: "validate_str (py_get (req_interaction request) ''type'' (JStr ''unknown'')) = Inr itype"
  shows "response_entries (snd (store_interaction now uuid request svc)) =
           [new_entry now uuid request itype score]"
    and "user_entries (fst (store_interaction now uuid request svc)) v =
           (if v = req_user_id request
            then (if max_memory_entries svc < length (user_entries svc v) + 1
                  then take (max_memory_entries svc)
                         (sorted_desc (\<lambda>x. (relevance_score x, timestamp x))
                            (user_entries svc v @ [new_entry now uuid request itype score]))
                  else user_entries svc v @ [new_entry now uuid request itype score])
            else user_entries svc v)"
    and "max_memory_entries (fst (store_interaction now uuid request svc)) = max_memory_entries svc"
    and "memory_retention_days (fst (store_interaction now uuid request svc)) =
           memory_retention_days svc"
    and "distinct (map fst (memory_storage svc)) \<Longrightarrow>
           distinct (map fst (memory_storage (fst (store_interaction now uuid request svc))))"
proof -
  show "response_entries (snd (store_interaction now uuid request svc)) =
           [new_entry now uuid request itype score]"
    by (simp add: store_interaction_def score itype Let_def response_entries_def)
  show "user_entries (fst (store_interaction now uuid request svc)) v =
           (if v = req_user_id request
            then (if max_memory_entries svc < length (user_entries svc v) + 1
                  then take (max_memory_entries svc)
                         (sorted_desc (\<lambda>x. (relevance_score x, timestamp x))
                            (user_entries svc v @ [new_entry now uuid request itype score]))
                  else user_entries svc v @ [new_entry now uuid request itype score])
            else user_entries svc v)"
    by (simp add: store_interaction_def score itype Let_def user_entries_update entries_py_get)
  show "max_memory_entries (fst (store_interaction now uuid request svc)) = max_memory_entries svc"
    by (simp add: store_interaction_def score itype Let_def)
  show "memory_retention_days (fst (store_interaction now uuid request svc)) =
           memory_retention_days svc"
    by (simp add: store_interaction_def score itype Let_def)
  show "distinct (map fst (memory_storage (fst (store_interaction now uuid request svc))))"
    if "distinct (map fst (memory_storage svc))"
    using that by (simp add: store_interaction_def score itype Let_def AList.distinct_update)
qed


lemma score_arith_bounds:
  fixes eb cb :: rat
  assumes "0 \<le> eb" and "0 \<le> cb"
  shows "1 / 2 \<le> min ((if P then 1 / 2 + 3 / 10 else if Q then 1 / 2 + 2 / 10 else 1 / 2) + eb + cb) 1"
    and "min ((if P then 1 / 2 + 3 / 10 else if Q then 1 / 2 + 2 / 10 else 1 / 2) + eb + cb) 1 \<le> 1"
  using assms by (cases P; cases Q; simp add: min_def)+

lemma calculate_relevance_score_Inr:
  assumes "calculate_relevance_score i = Inr s"
  shows "s = min ((if py_get i ''type'' (JStr '''') \<in> set [JStr ''purchase'', JStr ''support'', JStr ''form_fill'']
                   then 1 / 2 + 3 / 10
                   else if py_get i ''type'' (JStr '''') \<in> set [JStr ''question'', JStr ''search'']
                   then 1 / 2 + 2 / 10 else 1 / 2)
                 + (case map_of i ''entities'' of
                      None \<Rightarrow> 0
                    | Some es \<Rightarrow> min (1 / 10 * of_nat (case py_len es of Inl e \<Rightarrow> 0 | Inr n \<Rightarrow> n)) (3 / 10))
                 + (case map_of i ''context'' of
                      None \<Rightarrow> 0
                    | Some c \<Rightarrow> if 2 < (case py_len c of Inl e \<Rightarrow> 0 | Inr n \<Rightarrow> n) then 1 / 10 else 0)) 1"
proof -
  define F :: "rat \<Rightarrow> error + rat" where
    "F b = (case (case map_of i ''entities'' of
                 None \<Rightarrow> Inr b
               | Some es \<Rightarrow>
                   (case py_len es of
                      Inl e \<Rightarrow> Inl e
                    | Inr entity_count \<Rightarrow>
                        Inr (b + min (of_nat entity_count * (1 / 10)) (3 / 10)))) of
           Inl e \<Rightarrow> Inl e
         | Inr base_score \<Rightarrow>
             (case map_of i ''context'' of
                None \<Rightarrow> Inr (min base_score 1)
              | Some c \<Rightarrow>
                  (case py_len c of
                     Inl e \<Rightarrow> Inl e
                   | Inr n \<Rightarrow>
                       Inr (min (if 2 < n then base_score + 1 / 10 else base_score) 1))))" for b
  define b0 :: rat where
    "b0 = (if py_get i ''type'' (JStr '''') \<in> set [JStr ''purchase'', JStr ''support'', JStr ''form_fill'']
                   then 1 / 2 + 3 / 10
                   else if py_get i ''type'' (JStr '''') \<in> set [JStr ''question'', JStr ''search'']
                   then 1 / 2 + 2 / 10 else 1 / 2)"
  have eq: "calculate_relevance_score i = F b0"
    unfolding calculate_relevance_score_def Let_def F_def b0_def ..
  have gen: "s = min (b
                 + (case map_of i ''entities'' of
                      None \<Rightarrow> 0
                    | Some es \<Rightarrow> min (1 / 10 * of_nat (case py_len es of Inl e \<Rightarrow> 0 | Inr n \<Rightarrow> n)) (3 / 10))
                 + (case map_of i ''context'' of
                      None \<Rightarrow> 0
                    | Some c \<Rightarrow> if 2 < (case py_len c of Inl e \<Rightarrow> 0 | Inr n \<Rightarrow> n) then 1 / 10 else 0)) 1"
    if "F b = Inr s" for b
    using that unfolding F_def
    by (auto split: option.splits sum.splits if_splits simp: mult.commute)
  have "F b0 = Inr s"
    using assms unfolding eq .
  from gen [OF this] show ?thesis
    unfolding b0_def .
qed

lemma bonus_nonneg:
  "(0::rat) \<le> (case map_of i ''entities'' of
                 None \<Rightarrow> 0
               | Some es \<Rightarrow> min (1 / 10 * of_nat (case py_len es of Inl e \<Rightarrow> 0 | Inr n \<Rightarrow> n)) (3 / 10))"
  "(0::rat) \<le> (case map_of i ''context'' of
                 None \<Rightarrow> 0
               | Some c \<Rightarrow> if 2 < (case py_len c of Inl e \<Rightarrow> 0 | Inr n \<Rightarrow> n) then 1 / 10 else 0)"
  by (simp_all split: option.splits)


lemma relevance_score_bounds:
  assumes "calculate_relevance_score i = Inr s"
  shows "1 / 2 \<le> s" and "s \<le> 1"
proof -
  note closed = calculate_relevance_score_Inr [OF assms]
  show "1 / 2 \<le> s"
    by (subst closed) (rule score_arith_bounds(1) [OF bonus_nonneg(1) [of i] bonus_nonneg(2) [of i]])
  show "s \<le> 1"
    by (subst closed) (rule score_arith_bounds(2) [OF bonus_nonneg(1) [of i] bonus_nonneg(2) [of i]])
qed

lemma store_all_Cons:
  "store_all ((now, uuid, request) # calls) svc =
     (fst (store_all calls (fst (store_interaction now uuid request svc))),
      snd (store_interaction now uuid request svc) #
      snd (store_all calls (fst (store_interaction now uuid request svc))))"
  by (simp add: case_prod_unfold Let_def)

lemma store_interaction_limit [simp]:
  "max_memory_entries (fst (store_interaction now uuid request svc)) = max_memory_entries svc"
proof (cases "success (snd (store_interaction now uuid request svc))")
  case True
  then show ?thesis
    unfolding success_store_iff using store_interaction_success(3) by blast
next
  case False
  then show ?thesis by (simp add: store_interaction_failure(1))
qed



lemma cleanup_users_lookup:
  assumes "distinct us" and "set us \<subseteq> fst ` set storage"
  shows "map_of (cleanup_users cutoff us storage) k =
           (if k \<in> set us
            then (case map_of storage k of None \<Rightarrow> None | Some um \<Rightarrow> swept cutoff um)
            else map_of storage k)"
  using assms
proof (induction us arbitrary: storage)
  case Nil
  then show ?case by simp
next
  case (Cons u us)
  from Cons.prems(2) have "u \<in> fst ` set storage" by simp
  then obtain um where um: "map_of storage u = Some um"
    by (metis domD dom_map_of_conv_image_fst)
  let ?um' = "um\<lparr>entries := filter (\<lambda>entry. cutoff < timestamp entry) (entries um)\<rparr>"
  have notin: "u \<notin> set us" and dist: "distinct us"
    using Cons.prems(1) by simp_all
  show ?case
  proof (cases "filter (\<lambda>entry. cutoff < timestamp entry) (entries um) = []")
    case True
    have "fst ` set (AList.delete u storage) = fst ` set storage - {u}"
      by (simp flip: set_map add: AList.delete_keys)
    then have sub: "set us \<subseteq> fst ` set (AList.delete u storage)"
      using Cons.prems(2) notin by auto
    have step: "cleanup_users cutoff (u # us) storage = cleanup_users cutoff us (AList.delete u storage)"
      using um True by simp
    show ?thesis
      unfolding step Cons.IH [OF dist sub]
      using um True notin by (auto simp: swept_def AList.delete_conv')
  next
    case False
    have sub: "set us \<subseteq> fst ` set (AList.update u ?um' storage)"
      using Cons.prems(2) by (auto simp: AList.dom_update)
    have step: "cleanup_users cutoff (u # us) storage =
                  cleanup_users cutoff us (AList.update u ?um' storage)"
      using um False by simp
    show ?thesis
      unfolding step Cons.IH [OF dist sub]
      using um False notin by (auto simp: swept_def AList.update_conv')
  qed
qed

lemma cleanup_old_entries_lookup:
  assumes "distinct (map fst (memory_storage svc))"
  shows "map_of (memory_storage (cleanup_old_entries now svc)) k =
           (case map_of (memory_storage svc) k of
              None \<Rightarrow> None
            | Some um \<Rightarrow> swept (now - days (memory_retention_days svc)) um)"
proof -
  have "map_of (memory_storage (cleanup_old_entries now svc)) k =
          map_of (cleanup_users (now - days (memory_retention_days svc))
                    (map fst (memory_storage svc)) (memory_storage svc)) k"
    by (simp add: cleanup_old_entries_def Let_def)
  also have "\<dots> = (if k \<in> set (map fst (memory_storage svc))
            then (case map_of (memory_storage svc) k of None \<Rightarrow> None
                  | Some um \<Rightarrow> swept (now - days (memory_retention_days svc)) um)
            else map_of (memory_storage svc) k)"
    by (rule cleanup_users_lookup [OF assms]) simp
  also have "\<dots> = (case map_of (memory_storage svc) k of
              None \<Rightarrow> None
            | Some um \<Rightarrow> swept (now - days (memory_retention_days svc)) um)"
    by (auto simp: map_of_eq_None_iff [symmetric] split: option.splits)
  finally show ?thesis .
qed

lemma cleanup_old_entries_user_entries:
  assumes "distinct (map fst (memory_storage svc))"
  shows "user_entries (cleanup_old_entries now svc) uid =
           filter (\<lambda>e. now - days (memory_retention_days svc) < timestamp e) (user_entries svc uid)"
  unfolding user_entries_def cleanup_old_entries_lookup [OF assms]
  by (simp add: swept_def split: option.splits)





lemma length_py_take_cong:
  "length xs = length ys \<Longrightarrow> length (py_take n xs) = length (py_take n ys)"
  by (simp add: py_take_def)

lemma set_py_take: "set (py_take n xs) \<subseteq> set xs"
  by (auto simp: py_take_def dest: in_set_takeD)




section \<open>Facts about the session store\<close>


lemma get_session_expired:
  "map_of (active_sessions svc) sid = Some sd \<Longrightarrow> expired now svc sd \<Longrightarrow>
   get_session now sid svc = (svc\<lparr>active_sessions := AList.delete sid (active_sessions svc)\<rparr>, None)"
  by (simp add: get_session_def)

lemma get_session_live:
  "map_of (active_sessions svc) sid = Some sd \<Longrightarrow> \<not> expired now svc sd \<Longrightarrow>
   get_session now sid svc =
     (svc, Some \<lparr>info_session_id = session_id sd, info_user_id = user_id sd,
                 info_created_at = created_at sd, info_last_activity = last_activity sd,
                 info_status = status sd, info_interaction_count = interaction_count sd\<rparr>)"
  by (simp add: get_session_def)

lemma update_session_activity_absent:
  "map_of (active_sessions svc) sid = None \<Longrightarrow> update_session_activity now sid ctx svc = (svc, False)"
  by (simp add: update_session_activity_def)

lemma update_session_activity_present:
  assumes "map_of (active_sessions svc) sid = Some sd"
  shows "update_session_activity now sid ctx svc =
     (svc\<lparr>active_sessions := AList.update sid
        (sd\<lparr>last_activity := now, interaction_count := interaction_count sd + 1,
            session_context := (case ctx of None \<Rightarrow> session_context sd
               | Some c \<Rightarrow> if c \<noteq> [] then py_update (session_context sd) c else session_context sd)\<rparr>)
        (active_sessions svc)\<rparr>, True)"
  using assms by (simp add: update_session_activity_def Let_def split: option.splits)

section \<open>Session store: lazy expiry on read\<close>




section \<open>Session store: quota eviction\<close>

text \<open>
  Claim C4. When the user already holds at least \<open>max_sessions_per_user\<close> sessions
  (the quota is positive, 5 by default), \<open>create_session\<close> removes exactly one
  session: one of that user's sessions whose \<open>created_at\<close> is smallest. Every other
  session stays as it was, and the new session is in the store afterwards. The store is
  a dictionary, so its keys are distinct, and the generated identifier is new.
\<close>

theorem create_session_evicts_oldest:
  assumes dist: "distinct (map fst (active_sessions svc))"
      and fresh: "new_id \<notin> fst ` set (active_sessions svc)"
      and pos: "0 < max_sessions_per_user svc"
      and full: "max_sessions_per_user svc \<le>
                   length (filter (\<lambda>kv. user_id (snd kv) = uid) (active_sessions svc))"
  shows "\<exists>old sd.
           map_of (active_sessions svc) old = Some sd \<and> user_id sd = uid \<and>
           (\<forall>k s. map_of (active_sessions svc) k = Some s \<and> user_id s = uid \<longrightarrow>
                  created_at sd \<le> created_at s) \<and>
           map_of (active_sessions (fst (create_session now new_id uid udata svc))) old = None \<and>
           (\<forall>k. k \<noteq> old \<and> k \<noteq> new_id \<longrightarrow>
                map_of (active_sessions (fst (create_session now new_id uid udata svc))) k =
                map_of (active_sessions svc) k) \<and>
           (\<exists>new. map_of (active_sessions (fst (create_session now new_id uid udata svc))) new_id
                    = Some new \<and>
                  session_id new = new_id \<and> user_id new = uid \<and> created_at new = now \<and>
                  last_activity new = now \<and> interaction_count new = 0) \<and>
           success (snd (create_session now new_id uid udata svc))"
proof -
  let ?us = "filter (\<lambda>kv. user_id (snd kv) = uid) (active_sessions svc)"
  let ?new = "\<lparr>session_id = new_id, user_id = uid, created_at = now, last_activity = now,
               user_data = (case udata of None \<Rightarrow> [] | Some d \<Rightarrow> d),
               session_context = [], interaction_count = 0, status = ''active''\<rparr>"
  have "?us \<noteq> []" using pos full by auto
  then obtain m where m: "py_min_key (\<lambda>kv. created_at (snd kv)) ?us = Inr m"
    using py_min_key_nonempty by blast
  from py_min_key_Inr [OF m]
  have m_us: "m \<in> set ?us"
    and m_min: "\<forall>y \<in> set ?us. created_at (snd m) \<le> created_at (snd y)"
    by auto
  from m_us have m_in: "m \<in> set (active_sessions svc)" and m_uid: "user_id (snd m) = uid"
    by auto
  have lookup: "map_of (active_sessions svc) (fst m) = Some (snd m)"
    using dist m_in by (cases m) simp
  have neq: "fst m \<noteq> new_id"
    using fresh m_in by force
  have res: "create_session now new_id uid udata svc =
      (svc\<lparr>active_sessions := AList.update new_id ?new (AList.delete (fst m) (active_sessions svc))\<rparr>,
       Inr \<lparr>info_session_id = new_id, info_user_id = uid, info_created_at = now,
            info_last_activity = now, info_status = ''active'', info_interaction_count = 0\<rparr>)"
    using full m by (simp add: create_session_def Let_def)
  have minimal: "created_at (snd m) \<le> created_at s"
    if "map_of (active_sessions svc) k = Some s" and "user_id s = uid" for k s
  proof -
    from that(1) have "(k, s) \<in> set (active_sessions svc)" by (rule map_of_SomeD)
    with that(2) have "(k, s) \<in> set ?us" by simp
    with m_min show ?thesis by force
  qed
  have gone: "map_of (active_sessions (fst (create_session now new_id uid udata svc))) (fst m) = None"
    using neq by (simp add: res AList.update_conv' AList.delete_conv')
  have others: "map_of (active_sessions (fst (create_session now new_id uid udata svc))) k =
                map_of (active_sessions svc) k" if "k \<noteq> fst m \<and> k \<noteq> new_id" for k
    using that by (simp add: res AList.update_conv' AList.delete_conv')
  have present: "map_of (active_sessions (fst (create_session now new_id uid udata svc))) new_id = Some ?new"
    by (simp add: res AList.update_conv')
  have ok: "success (snd (create_session now new_id uid udata svc))"
    by (simp add: res success_def)
  show ?thesis
    apply (rule exI [of _ "fst m"])
    apply (rule exI [of _ "snd m"])
    using lookup m_uid minimal gone others present ok
    by auto
qed

text \<open>
  Five sessions of one user are created at times 1 to 5 and the first one is used
  again at time 6, so that it is the oldest by creation and the latest by activity.
  The sixth \<open>create_session\<close> removes it.
\<close>

theorem create_session_evicts_oldest_witness:
  "(let svc = fst (update_session_activity 6 ''s1'' None
                (fst (create_session 5 ''s5'' ''u1'' None
                (fst (create_session 4 ''s4'' ''u1'' None
                (fst (create_session 3 ''s3'' ''u1'' None
                (fst (create_session 2 ''s2'' ''u1'' None
                (fst (create_session 1 ''s1'' ''u1'' None SessionService_init)))))))))));
        svc' = fst (create_session 7 ''s6'' ''u1'' None svc)
    in distinct (map fst (active_sessions svc)) \<and>
       ''s6'' \<notin> fst ` set (active_sessions svc) \<and>
       0 < max_sessions_per_user svc \<and>
       max_sessions_per_user svc \<le>
         length (filter (\<lambda>kv. user_id (snd kv) = ''u1'') (active_sessions svc)) \<and>
       map (\<lambda>kv. (fst kv, created_at (snd kv), last_activity (snd kv))) (active_sessions svc) =
         [(''s1'', 1, 6), (''s2'', 2, 2), (''s3'', 3, 3), (''s4'', 4, 4), (''s5'', 5, 5)] \<and>
       map fst (active_sessions svc') = [''s2'', ''s3'', ''s4'', ''s5'', ''s6''] \<and>
       (\<exists>old sd.
           map_of (active_sessions svc) old = Some sd \<and> user_id sd = ''u1'' \<and>
           (\<forall>k s. map_of (active_sessions svc) k = Some s \<and> user_id s = ''u1'' \<longrightarrow>
                  created_at sd \<le> created_at s) \<and>
           map_of (active_sessions svc') old = None \<and>
           (\<forall>k. k \<noteq> old \<and> k \<noteq> ''s6'' \<longrightarrow>
                map_of (active_sessions svc') k = map_of (active_sessions svc) k) \<and>
           (\<exists>new. map_of (active_sessions svc') ''s6'' = Some new \<and>
                  session_id new = ''s6'' \<and> user_id new = ''u1'' \<and> created_at new = 7 \<and>
                  last_activity new = 7 \<and> interaction_count new = 0) \<and>
           success (snd (create_session 7 ''s6'' ''u1'' None svc))))"
proof -
  define svc where "svc = fst (update_session_activity 6 ''s1'' None
                (fst (create_session 5 ''s5'' ''u1'' None
                (fst (create_session 4 ''s4'' ''u1'' None
                (fst (create_session 3 ''s3'' ''u1'' None
                (fst (create_session 2 ''s2'' ''u1'' None
                (fst (create_session 1 ''s1'' ''u1'' None SessionService_init)))))))))))"
  define svc' where "svc' = fst (create_session 7 ''s6'' ''u1'' None svc)"
  have st: "active_sessions svc =
        [(''s1'', \<lparr>session_id = ''s1'', user_id = ''u1'', created_at = 1, last_activity = 6,
            user_data = [], session_context = [], interaction_count = 1, status = ''active''\<rparr>),
         (''s2'', \<lparr>session_id = ''s2'', user_id = ''u1'', created_at = 2, last_activity = 2,
            user_data = [], session_context = [], interaction_count = 0, status = ''active''\<rparr>),
         (''s3'', \<lparr>session_id = ''s3'', user_id = ''u1'', created_at = 3, last_activity = 3,
            user_data = [], session_context = [], interaction_count = 0, status = ''active''\<rparr>),
         (''s4'', \<lparr>session_id = ''s4'', user_id = ''u1'', created_at = 4, last_activity = 4,
            user_data = [], session_context = [], interaction_count = 0, status = ''active''\<rparr>),
         (''s5'', \<lparr>session_id = ''s5'', user_id = ''u1'', created_at = 5, last_activity = 5,
            user_data = [], session_context = [], interaction_count = 0, status = ''active''\<rparr>)]"
    and quota: "max_sessions_per_user svc = 5"
    unfolding svc_def
    by (simp_all add: create_session_def update_session_activity_def SessionService_init_def Let_def)
  have h1: "distinct (map fst (active_sessions svc))"
    by (simp add: st)
  have h2: "''s6'' \<notin> fst ` set (active_sessions svc)"
    by (simp add: st)
  have h3: "0 < max_sessions_per_user svc"
    by (simp add: quota)
  have h4: "max_sessions_per_user svc \<le>
         length (filter (\<lambda>kv. user_id (snd kv) = ''u1'') (active_sessions svc))"
    by (simp add: st quota)
  have times: "map (\<lambda>kv. (fst kv, created_at (snd kv), last_activity (snd kv))) (active_sessions svc) =
         [(''s1'', 1, 6), (''s2'', 2, 2), (''s3'', 3, 3), (''s4'', 4, 4), (''s5'', 5, 5)]"
    by (simp add: st)
  have after: "map fst (active_sessions svc') = [''s2'', ''s3'', ''s4'', ''s5'', ''s6'']"
    unfolding svc'_def
    by (simp add: create_session_def st quota Let_def AList.delete_eq)
  note ex = create_session_evicts_oldest [OF h1 h2 h3 h4, of 7 None, folded svc'_def]
  show ?thesis
    unfolding Let_def svc_def [symmetric] svc'_def [symmetric]
    by (intro conjI h1 h2 h3 h4 times after ex)
qed

section \<open>Session store: activity updates\<close>

text \<open>
  Claim C6. \<open>update_session_activity\<close> returns \<open>False\<close> exactly when the session is
  absent, and then changes nothing. On a stored session it sets \<open>last_activity\<close> to
  the clock value, adds one to \<open>interaction_count\<close>, and merges the patch into the
  context: keys of the patch overwrite, all other keys of both sides are kept. No
  other field and no other session changes. The patch is a dictionary, so its keys are
  distinct.
\<close>

theorem update_session_activity_spec:
  assumes "\<forall>c. ctx = Some c \<longrightarrow> distinct (map fst c)"
  shows "(snd (update_session_activity now sid ctx svc) = False \<longleftrightarrow>
            map_of (active_sessions svc) sid = None) \<and>
         (map_of (active_sessions svc) sid = None \<longrightarrow>
            fst (update_session_activity now sid ctx svc) = svc) \<and>
         (\<forall>sd. map_of (active_sessions svc) sid = Some sd \<longrightarrow>
            (\<exists>sd'. map_of (active_sessions (fst (update_session_activity now sid ctx svc))) sid = Some sd' \<and>
                   last_activity sd' = now \<and>
                   interaction_count sd' = interaction_count sd + 1 \<and>
                   map_of (session_context sd') =
                     map_of (session_context sd) ++ map_of (case ctx of None \<Rightarrow> [] | Some c \<Rightarrow> c) \<and>
                   session_id sd' = session_id sd \<and> user_id sd' = user_id sd \<and>
                   created_at sd' = created_at sd \<and> user_data sd' = user_data sd \<and>
                   status sd' = status sd)) \<and>
         (\<forall>k. k \<noteq> sid \<longrightarrow>
            map_of (active_sessions (fst (update_session_activity now sid ctx svc))) k =
            map_of (active_sessions svc) k)"
proof (cases "map_of (active_sessions svc) sid")
  case None
  then show ?thesis by (simp add: update_session_activity_absent)
next
  case (Some sd)
  have ctx: "map_of (case ctx of None \<Rightarrow> session_context sd
               | Some c \<Rightarrow> if c \<noteq> [] then py_update (session_context sd) c else session_context sd)
             = map_of (session_context sd) ++ map_of (case ctx of None \<Rightarrow> [] | Some c \<Rightarrow> c)"
    using assms by (auto simp: map_of_py_update split: option.splits)
  show ?thesis
    using Some ctx
    by (simp add: update_session_activity_present [OF Some] AList.update_conv')
qed

text \<open>
  The scenario of the specification: a session is created for \<open>u1\<close> and updated with
  the context \<open>{"topic": "billing"}\<close>; afterwards its \<open>interaction_count\<close> is 1 and
  its context is \<open>{"topic": "billing"}\<close>. An unknown identifier is answered \<open>False\<close>.
\<close>

theorem update_session_activity_spec_witness:
  "(let svc = fst (create_session 0 ''s1'' ''u1'' None SessionService_init);
        patch = Some [(''topic'', JStr ''billing'')];
        r = update_session_activity (seconds 10) ''s1'' patch svc
    in distinct (map fst [(''topic'', JStr ''billing'')]) \<and>
       (snd r = False \<longleftrightarrow> map_of (active_sessions svc) ''s1'' = None) \<and>
       snd r = True \<and>
       snd (update_session_activity (seconds 10) ''s2'' patch svc) = False \<and>
       map (\<lambda>kv. (fst kv, interaction_count (snd kv), last_activity (snd kv),
                   session_context (snd kv))) (active_sessions (fst r))
         = [(''s1'', 1, seconds 10, [(''topic'', JStr ''billing'')])] \<and>
       get_session_context ''s1'' (fst r) = [(''topic'', JStr ''billing'')])"
proof -
  define svc where "svc = fst (create_session 0 ''s1'' ''u1'' None SessionService_init)"
  define patch where "patch = Some [(''topic'', JStr ''billing'')]"
  define r where "r = update_session_activity (seconds 10) ''s1'' patch svc"
  have h: "\<forall>c. patch = Some c \<longrightarrow> distinct (map fst c)"
    by (simp add: patch_def)
  have d: "distinct (map fst [(''topic'', JStr ''billing'')])"
    by simp
  have st: "active_sessions svc =
      [(''s1'', \<lparr>session_id = ''s1'', user_id = ''u1'', created_at = 0, last_activity = 0,
                user_data = [], session_context = [], interaction_count = 0,
                status = ''active''\<rparr>)]"
    by (simp add: svc_def create_session_def SessionService_init_def)
  have iff: "snd r = False \<longleftrightarrow> map_of (active_sessions svc) ''s1'' = None"
    unfolding r_def
    by (rule update_session_activity_spec [OF h, of "seconds 10" "''s1''" svc, THEN conjunct1])
  have ok: "snd r = True"
    using iff by (simp add: st)
  have absent: "snd (update_session_activity (seconds 10) ''s2'' patch svc) = False"
    by (simp add: update_session_activity_def st)
  have after: "map (\<lambda>kv. (fst kv, interaction_count (snd kv), last_activity (snd kv),
                   session_context (snd kv))) (active_sessions (fst r))
         = [(''s1'', 1, seconds 10, [(''topic'', JStr ''billing'')])]"
    by (simp add: r_def update_session_activity_def st patch_def py_update_def)
  have ctx: "get_session_context ''s1'' (fst r) = [(''topic'', JStr ''billing'')]"
    by (simp add: r_def get_session_context_def update_session_activity_def st patch_def
          py_update_def)
  show ?thesis
    unfolding Let_def svc_def [symmetric] patch_def [symmetric] r_def [symmetric]
    by (intro conjI d iff ok absent after ctx)
qed

text \<open>
  Claim C9. \<open>update_session_activity\<close> makes no expiry test. On a session that is
  still stored although \<open>get_session\<close> would expire it, the call returns \<open>True\<close>, adds
  one to \<open>interaction_count\<close> and sets \<open>last_activity\<close> to the clock value; with a
  non-negative timeout the session is then no longer expired and \<open>get_session\<close>
  returns it.
\<close>

theorem update_revives_expired_session:
  assumes "map_of (active_sessions svc) sid = Some sd"
      and "expired now svc sd"
      and "0 \<le> session_timeout svc"
  shows "snd (update_session_activity now sid ctx svc) = True \<and>
         (\<exists>sd'. map_of (active_sessions (fst (update_session_activity now sid ctx svc))) sid = Some sd' \<and>
                interaction_count sd' = interaction_count sd + 1 \<and>
                last_activity sd' = now \<and>
                \<not> expired now (fst (update_session_activity now sid ctx svc)) sd') \<and>
         snd (get_session now sid svc) = None \<and>
         snd (get_session now sid (fst (update_session_activity now sid ctx svc))) \<noteq> None"
proof -
  let ?sd' = "sd\<lparr>last_activity := now, interaction_count := interaction_count sd + 1,
            session_context := (case ctx of None \<Rightarrow> session_context sd
               | Some c \<Rightarrow> if c \<noteq> [] then py_update (session_context sd) c else session_context sd)\<rparr>"
  let ?svc' = "fst (update_session_activity now sid ctx svc)"
  have stored: "map_of (active_sessions ?svc') sid = Some ?sd'"
    by (simp add: update_session_activity_present [OF assms(1)] AList.update_conv')
  have timeout: "session_timeout ?svc' = session_timeout svc"
    by (simp add: update_session_activity_present [OF assms(1)])
  have live: "\<not> expired now ?svc' ?sd'"
    using assms(3) by (simp add: expired_def timeout total_seconds_def)
  have "snd (get_session now sid ?svc') \<noteq> None"
    using get_session_live [OF stored live] by simp
  moreover have "snd (get_session now sid svc) = None"
    using get_session_expired [OF assms(1) assms(2)] by simp
  moreover have "snd (update_session_activity now sid ctx svc) = True"
    by (simp add: update_session_activity_present [OF assms(1)])
  ultimately show ?thesis using stored live by auto
qed

text \<open>
  A session created at time 0 is expired 4000 seconds later under the default timeout;
  an update at that moment succeeds and the session is served again.
\<close>

theorem update_revives_expired_session_witness:
  "(let svc = fst (create_session 0 ''s1'' ''u1'' None SessionService_init);
        sd = \<lparr>session_id = ''s1'', user_id = ''u1'', created_at = 0, last_activity = 0,
              user_data = [], session_context = [], interaction_count = 0,
              status = ''active''\<rparr>;
        now = seconds 4000;
        svc' = fst (update_session_activity now ''s1'' None svc)
    in map_of (active_sessions svc) ''s1'' = Some sd \<and>
       expired now svc sd \<and>
       0 \<le> session_timeout svc \<and>
       snd (update_session_activity now ''s1'' None svc) = True \<and>
       (\<exists>sd'. map_of (active_sessions svc') ''s1'' = Some sd' \<and>
              interaction_count sd' = interaction_count sd + 1 \<and>
              last_activity sd' = now \<and>
              \<not> expired now svc' sd') \<and>
       snd (get_session now ''s1'' svc) = None \<and>
       snd (get_session now ''s1'' svc') \<noteq> None)"
proof -
  define svc where "svc = fst (create_session 0 ''s1'' ''u1'' None SessionService_init)"
  define sd where "sd = \<lparr>session_id = ''s1'', user_id = ''u1'', created_at = 0, last_activity = 0,
              user_data = [], session_context = [], interaction_count = 0,
              status = ''active''\<rparr>"
  define now where "now = seconds 4000"
  have h1: "map_of (active_sessions svc) ''s1'' = Some sd"
    by (simp add: svc_def sd_def create_session_def SessionService_init_def)
  have timeout: "session_timeout svc = 3600"
    by (simp add: svc_def create_session_def SessionService_init_def)
  have h2: "expired now svc sd"
    by (simp add: expired_def timeout sd_def now_def total_seconds_def seconds_def)
  have h3: "0 \<le> session_timeout svc"
    by (simp add: timeout)
  note concl = update_revives_expired_session [OF h1 h2 h3, of None]
  show ?thesis
    unfolding Let_def svc_def [symmetric] sd_def [symmetric] now_def [symmetric]
    by (intro conjI h1 h2 h3 concl [THEN conjunct1] concl [THEN conjunct2, THEN conjunct1]
          concl [THEN conjunct2, THEN conjunct2, THEN conjunct1]
          concl [THEN conjunct2, THEN conjunct2, THEN conjunct2])
qed

section \<open>Memory store: relevance of a stored interaction\<close>




text \<open>
  Claim C10. Every computed relevance score lies between 0.5 and 1: the entry that a
  call creates has such a score, and if all stored entries have such a score before a
  call then they all have one after it.
\<close>

theorem relevance_score_range:
  "(\<forall>s. calculate_relevance_score interaction = Inr s \<longrightarrow> 1 / 2 \<le> s \<and> s \<le> 1) \<and>
   (\<forall>e \<in> set (response_entries (snd (store_interaction now uuid request svc))).
      1 / 2 \<le> relevance_score e \<and> relevance_score e \<le> 1) \<and>
   ((\<forall>v. \<forall>e \<in> set (user_entries svc v). 1 / 2 \<le> relevance_score e \<and> relevance_score e \<le> 1) \<longrightarrow>
    (\<forall>v. \<forall>e \<in> set (user_entries (fst (store_interaction now uuid request svc)) v).
      1 / 2 \<le> relevance_score e \<and> relevance_score e \<le> 1))"
proof (intro conjI allI impI ballI)
  fix s assume "calculate_relevance_score interaction = Inr s"
  then show "1 / 2 \<le> s" and "s \<le> 1"
    by (rule relevance_score_bounds)+
next
  fix e assume e: "e \<in> set (response_entries (snd (store_interaction now uuid request svc)))"
  have "1 / 2 \<le> relevance_score e \<and> relevance_score e \<le> 1"
  proof (cases "success (snd (store_interaction now uuid request svc))")
    case True
    then obtain score itype
      where score: "calculate_relevance_score (req_interaction request) = Inr score"
        and itype: "validate_str (py_get (req_interaction request) ''type'' (JStr ''unknown'')) = Inr itype"
      unfolding success_store_iff by blast
    from e have "e = new_entry now uuid request itype score"
      unfolding store_interaction_success(1) [OF score itype] by simp
    then have "relevance_score e = score"
      by (simp add: new_entry_def)
    then show ?thesis
      using relevance_score_bounds [OF score] by simp
  next
    case False
    then show ?thesis
      using e store_interaction_failure(2) [OF False] by simp
  qed
  then show "1 / 2 \<le> relevance_score e" and "relevance_score e \<le> 1"
    by simp_all
next
  fix v e
  assume inv: "\<forall>v. \<forall>e \<in> set (user_entries svc v). 1 / 2 \<le> relevance_score e \<and> relevance_score e \<le> 1"
    and e: "e \<in> set (user_entries (fst (store_interaction now uuid request svc)) v)"
  have "1 / 2 \<le> relevance_score e \<and> relevance_score e \<le> 1"
  proof (cases "success (snd (store_interaction now uuid request svc))")
    case True
    then obtain score itype
      where score: "calculate_relevance_score (req_interaction request) = Inr score"
        and itype: "validate_str (py_get (req_interaction request) ''type'' (JStr ''unknown'')) = Inr itype"
      unfolding success_store_iff by blast
    have "set (user_entries (fst (store_interaction now uuid request svc)) v)
            \<subseteq> set (user_entries svc v) \<union> {new_entry now uuid request itype score}"
      unfolding store_interaction_success(2) [OF score itype]
      using set_take_subset [of "max_memory_entries svc"
          "sorted_desc (\<lambda>x. (relevance_score x, timestamp x))
             (user_entries svc v @ [new_entry now uuid request itype score])"]
      by auto
    with e have "e \<in> set (user_entries svc v) \<or> e = new_entry now uuid request itype score"
      by auto
    then show ?thesis
    proof
      assume "e \<in> set (user_entries svc v)"
      with inv show ?thesis by blast
    next
      assume "e = new_entry now uuid request itype score"
      then have "relevance_score e = score"
        by (simp add: new_entry_def)
      then show ?thesis
        using relevance_score_bounds [OF score] by simp
    qed
  next
    case False
    then show ?thesis
      using e inv store_interaction_failure(1) [OF False] by simp
  qed
  then show "1 / 2 \<le> relevance_score e" and "relevance_score e \<le> 1"
    by simp_all
qed

text \<open>
  A payload of type \<open>question\<close> scores 0.7; stored into the empty service, it is the
  one entry of its user.
\<close>

theorem relevance_score_range_witness:
  "calculate_relevance_score [(''type'', JStr ''question'')] = Inr (7 / 10) \<and>
   (1 / 2 \<le> (7 / 10 :: rat) \<and> (7 / 10 :: rat) \<le> 1) \<and>
   map relevance_score (response_entries (snd (store_interaction 0 ''e1''
       \<lparr>req_user_id = ''u1'', req_session_id = None,
        req_interaction = [(''type'', JStr ''question'')], req_context = None\<rparr>
       MemoryService_init))) = [7 / 10] \<and>
   list_all (\<lambda>e. 1 / 2 \<le> relevance_score e \<and> relevance_score e \<le> 1)
     (response_entries (snd (store_interaction 0 ''e1''
       \<lparr>req_user_id = ''u1'', req_session_id = None,
        req_interaction = [(''type'', JStr ''question'')], req_context = None\<rparr>
       MemoryService_init))) \<and>
   memory_storage MemoryService_init = [] \<and>
   map relevance_score (user_entries (fst (store_interaction 0 ''e1''
       \<lparr>req_user_id = ''u1'', req_session_id = None,
        req_interaction = [(''type'', JStr ''question'')], req_context = None\<rparr>
       MemoryService_init)) ''u1'') = [7 / 10] \<and>
   list_all (\<lambda>e. 1 / 2 \<le> relevance_score e \<and> relevance_score e \<le> 1)
     (user_entries (fst (store_interaction 0 ''e1''
       \<lparr>req_user_id = ''u1'', req_session_id = None,
        req_interaction = [(''type'', JStr ''question'')], req_context = None\<rparr>
       MemoryService_init)) ''u1'')"
proof -
  define request where "request =
       \<lparr>req_user_id = ''u1'', req_session_id = None,
        req_interaction = [(''type'', JStr ''question'')], req_context = None\<rparr>"
  have sc0: "calculate_relevance_score [(''type'', JStr ''question'')] = Inr (7 / 10)"
    by (simp add: calculate_relevance_score_def py_get_def Let_def)
  have sc: "calculate_relevance_score (req_interaction request) = Inr (7 / 10)"
    using sc0 by (simp add: request_def)
  have it: "validate_str (py_get (req_interaction request) ''type'' (JStr ''unknown'')) = Inr ''question''"
    by (simp add: request_def py_get_def)
  note range = relevance_score_range [of "[(''type'', JStr ''question'')]" 0 "''e1''" request
      MemoryService_init]
  have a: "1 / 2 \<le> (7 / 10 :: rat) \<and> (7 / 10 :: rat) \<le> 1"
    using range [THEN conjunct1] sc0 by blast
  have b: "map relevance_score
      (response_entries (snd (store_interaction 0 ''e1'' request MemoryService_init))) = [7 / 10]"
    by (simp add: store_interaction_success(1) [OF sc it] new_entry_def)
  have b': "list_all (\<lambda>e. 1 / 2 \<le> relevance_score e \<and> relevance_score e \<le> 1)
     (response_entries (snd (store_interaction 0 ''e1'' request MemoryService_init)))"
    unfolding list_all_iff by (rule range [THEN conjunct2, THEN conjunct1])
  have empty: "memory_storage MemoryService_init = []"
    by (simp add: MemoryService_init_def)
  have init: "\<forall>v. \<forall>e \<in> set (user_entries MemoryService_init v).
      1 / 2 \<le> relevance_score e \<and> relevance_score e \<le> 1"
    by (simp add: user_entries_def empty)
  have c: "map relevance_score
      (user_entries (fst (store_interaction 0 ''e1'' request MemoryService_init)) ''u1'') = [7 / 10]"
    by (subst store_interaction_success(2) [OF sc it])
       (simp add: request_def user_entries_def MemoryService_init_def new_entry_def)
  have d: "list_all (\<lambda>e. 1 / 2 \<le> relevance_score e \<and> relevance_score e \<le> 1)
     (user_entries (fst (store_interaction 0 ''e1'' request MemoryService_init)) ''u1'')"
    unfolding list_all_iff
    by (rule range [THEN conjunct2, THEN conjunct2, THEN mp, OF init, THEN spec])
  show ?thesis
    unfolding request_def [symmetric]
    by (intro conjI sc0 a [THEN conjunct1] a [THEN conjunct2] b b' empty c d)
qed

section \<open>Memory store: capacity\<close>



section \<open>Memory store: retention\<close>

text \<open>
  Claim C7. With \<open>memory_retention_days = 30\<close> the sweep keeps of every user exactly
  the entries whose timestamp is later than 30 days before the clock value. So every
  entry more than 30 days old is removed, an entry 31 days old is removed and one 29
  days old is kept; no aggregate is left with an empty entry list, and a user whose
  list would be empty has no aggregate afterwards. The storage is a dictionary, so its
  keys are distinct.
\<close>

theorem cleanup_old_entries_retention:
  assumes "distinct (map fst (memory_storage svc))"
      and "memory_retention_days svc = 30"
  shows "user_entries (cleanup_old_entries now svc) uid =
           filter (\<lambda>e. now - days 30 < timestamp e) (user_entries svc uid) \<and>
         (\<forall>e \<in> set (user_entries svc uid).
            days 30 < now - timestamp e \<longrightarrow>
            e \<notin> set (user_entries (cleanup_old_entries now svc) uid)) \<and>
         (\<forall>e \<in> set (user_entries svc uid).
            timestamp e = now - days 31 \<longrightarrow>
            e \<notin> set (user_entries (cleanup_old_entries now svc) uid)) \<and>
         (\<forall>e \<in> set (user_entries svc uid).
            timestamp e = now - days 29 \<longrightarrow>
            e \<in> set (user_entries (cleanup_old_entries now svc) uid)) \<and>
         (\<forall>um. map_of (memory_storage (cleanup_old_entries now svc)) uid = Some um \<longrightarrow>
            entries um \<noteq> []) \<and>
         (user_entries (cleanup_old_entries now svc) uid = [] \<longrightarrow>
            map_of (memory_storage (cleanup_old_entries now svc)) uid = None)"
proof -
  have kept: "user_entries (cleanup_old_entries now svc) uid =
           filter (\<lambda>e. now - days 30 < timestamp e) (user_entries svc uid)"
    using cleanup_old_entries_user_entries [OF assms(1), of now uid] assms(2) by simp
  have lookup: "map_of (memory_storage (cleanup_old_entries now svc)) uid =
           (case map_of (memory_storage svc) uid of
              None \<Rightarrow> None
            | Some um \<Rightarrow> swept (now - days 30) um)"
    using cleanup_old_entries_lookup [OF assms(1), of now uid] unfolding assms(2) .
  have old: "\<forall>e \<in> set (user_entries svc uid).
            days 30 < now - timestamp e \<longrightarrow>
            e \<notin> set (user_entries (cleanup_old_entries now svc) uid)"
    unfolding kept by auto
  have d31: "\<forall>e \<in> set (user_entries svc uid).
            timestamp e = now - days 31 \<longrightarrow>
            e \<notin> set (user_entries (cleanup_old_entries now svc) uid)"
    unfolding kept by (auto simp: days_def)
  have d29: "\<forall>e \<in> set (user_entries svc uid).
            timestamp e = now - days 29 \<longrightarrow>
            e \<in> set (user_entries (cleanup_old_entries now svc) uid)"
    unfolding kept by (auto simp: days_def)
  have nonempty: "\<forall>um. map_of (memory_storage (cleanup_old_entries now svc)) uid = Some um \<longrightarrow>
            entries um \<noteq> []"
    unfolding lookup by (auto simp: swept_def split: option.splits if_splits)
  have pruned: "user_entries (cleanup_old_entries now svc) uid = [] \<longrightarrow>
            map_of (memory_storage (cleanup_old_entries now svc)) uid = None"
    using nonempty by (auto simp: user_entries_def split: option.splits)
  show ?thesis
    by (intro conjI kept old d31 d29 nonempty pruned)
qed

text \<open>
  Forty days after its start the service holds, for \<open>u1\<close>, entries 31 and 29 days
  old and, for \<open>u2\<close>, one entry 40 days old. The sweep keeps the entry of 29 days and
  removes the aggregate of \<open>u2\<close>.
\<close>

theorem cleanup_old_entries_retention_witness:
  "(let r1 = \<lparr>req_user_id = ''u1'', req_session_id = None,
              req_interaction = [(''type'', JStr ''question'')], req_context = None\<rparr>;
        r2 = \<lparr>req_user_id = ''u2'', req_session_id = None,
              req_interaction = [(''type'', JStr ''search'')], req_context = None\<rparr>;
        svc = fst (store_all [(0, ''e0'', r2), (days 9, ''e1'', r1), (days 11, ''e2'', r1)]
                     MemoryService_init);
        now = days 40
    in distinct (map fst (memory_storage svc)) \<and>
       memory_retention_days svc = 30 \<and>
       map (\<lambda>e. (entry_id e, timestamp e)) (user_entries svc ''u1'') =
         [(''e1'', now - days 31), (''e2'', now - days 29)] \<and>
       map (\<lambda>e. (entry_id e, timestamp e)) (user_entries (cleanup_old_entries now svc) ''u1'') =
         [(''e2'', now - days 29)] \<and>
       map (\<lambda>e. (entry_id e, timestamp e)) (user_entries svc ''u2'') = [(''e0'', 0)] \<and>
       map_of (memory_storage (cleanup_old_entries now svc)) ''u2'' = None)"
proof -
  define r1 where "r1 = \<lparr>req_user_id = ''u1'', req_session_id = None,
              req_interaction = [(''type'', JStr ''question'')], req_context = None\<rparr>"
  define r2 where "r2 = \<lparr>req_user_id = ''u2'', req_session_id = None,
              req_interaction = [(''type'', JStr ''search'')], req_context = None\<rparr>"
  define s0 where "s0 = fst (store_interaction 0 ''e0'' r2 MemoryService_init)"
  define s1 where "s1 = fst (store_interaction (days 9) ''e1'' r1 s0)"
  define svc where "svc = fst (store_all [(0, ''e0'', r2), (days 9, ''e1'', r1), (days 11, ''e2'', r1)]
                     MemoryService_init)"
  define now where "now = days 40"
  define n0 where "n0 = new_entry 0 ''e0'' r2 ''search'' (7 / 10)"
  define n1 where "n1 = new_entry (days 9) ''e1'' r1 ''question'' (7 / 10)"
  define n2 where "n2 = new_entry (days 11) ''e2'' r1 ''question'' (7 / 10)"
  have sc1: "calculate_relevance_score (req_interaction r1) = Inr (7 / 10)"
    and sc2: "calculate_relevance_score (req_interaction r2) = Inr (7 / 10)"
    by (simp_all add: r1_def r2_def calculate_relevance_score_def py_get_def Let_def)
  have it1: "validate_str (py_get (req_interaction r1) ''type'' (JStr ''unknown'')) = Inr ''question''"
    and it2: "validate_str (py_get (req_interaction r2) ''type'' (JStr ''unknown'')) = Inr ''search''"
    by (simp_all add: r1_def r2_def py_get_def)
  have uid: "req_user_id r1 = ''u1''" "req_user_id r2 = ''u2''"
    by (simp_all add: r1_def r2_def)
  have svc_eq: "svc = fst (store_interaction (days 11) ''e2'' r1 s1)"
    by (simp add: svc_def s1_def s0_def store_all_Cons del: store_all.simps(2))
  have init: "user_entries MemoryService_init v = []" "max_memory_entries MemoryService_init = 1000"
    "memory_retention_days MemoryService_init = 30"
    "distinct (map fst (memory_storage MemoryService_init))" for v
    by (simp_all add: user_entries_def MemoryService_init_def)
  have cap0: "max_memory_entries s0 = 1000" and cap1: "max_memory_entries s1 = 1000"
    by (simp_all add: s0_def s1_def init)
  have ue0: "user_entries s0 ''u1'' = []" "user_entries s0 ''u2'' = [n0]"
    unfolding s0_def store_interaction_success(2) [OF sc2 it2]
    by (simp_all add: uid init n0_def)
  have ue1: "user_entries s1 ''u1'' = [n1]" "user_entries s1 ''u2'' = [n0]"
    unfolding s1_def store_interaction_success(2) [OF sc1 it1]
    by (simp_all add: uid ue0 cap0 n1_def)
  have ue2: "user_entries svc ''u1'' = [n1, n2]" "user_entries svc ''u2'' = [n0]"
    unfolding svc_eq store_interaction_success(2) [OF sc1 it1]
    by (simp_all add: uid ue1 cap1 n2_def)
  have h1: "distinct (map fst (memory_storage svc))"
    unfolding svc_eq s1_def s0_def
    by (intro store_interaction_success(5) [OF sc1 it1] store_interaction_success(5) [OF sc2 it2]
          init(4))
  have h2: "memory_retention_days svc = 30"
    unfolding svc_eq s1_def s0_def
    by (simp add: store_interaction_success(4) [OF sc1 it1] store_interaction_success(4) [OF sc2 it2]
          init(3))
  note sweep = cleanup_old_entries_retention [OF h1 h2, of now]
  have before1: "map (\<lambda>e. (entry_id e, timestamp e)) (user_entries svc ''u1'') =
         [(''e1'', now - days 31), (''e2'', now - days 29)]"
    by (simp add: ue2 n1_def n2_def new_entry_def now_def days_def)
  have after1: "map (\<lambda>e. (entry_id e, timestamp e)) (user_entries (cleanup_old_entries now svc) ''u1'') =
         [(''e2'', now - days 29)]"
    unfolding sweep [of "''u1''", THEN conjunct1]
    by (simp add: ue2 n1_def n2_def new_entry_def now_def days_def)
  have before2: "map (\<lambda>e. (entry_id e, timestamp e)) (user_entries svc ''u2'') = [(''e0'', 0)]"
    by (simp add: ue2 n0_def new_entry_def now_def days_def)
  have "user_entries (cleanup_old_entries now svc) ''u2'' = []"
    unfolding sweep [of "''u2''", THEN conjunct1]
    by (simp add: ue2 n0_def new_entry_def now_def days_def)
  then have after2: "map_of (memory_storage (cleanup_old_entries now svc)) ''u2'' = None"
    using sweep [of "''u2''"] by blast
  show ?thesis
    unfolding Let_def r1_def [symmetric] r2_def [symmetric] svc_def [symmetric] now_def [symmetric]
    by (intro conjI h1 h2 before1 after1 before2 after2)
qed

section \<open>Memory store: search\<close>




section \<open>Memory store: recent intents of the summary\<close>


end
